theory Spec2Isabelle
  imports Complex_Main "HOL-Library.Multiset"
begin

section \<open>Python strings\<close>

text \<open>
  The three \<^verbatim>\<open>str\<close> methods the tracker calls. Strings are lists of characters;
  \<^verbatim>\<open>upper\<close> is modelled on ASCII letters (other characters are left alone).
\<close>

definition endswith :: "string \<Rightarrow> string \<Rightarrow> bool" where
  "endswith s suf \<longleftrightarrow>
     length suf \<le> length s \<and> drop (length s - length suf) s = suf"

definition startswith :: "string \<Rightarrow> string \<Rightarrow> bool" where
  "startswith s pre \<longleftrightarrow> take (length pre) s = pre"

text \<open>
  \<^verbatim>\<open>s.replace(old, new)\<close>: every non-overlapping occurrence of \<open>old\<close>, scanning from
  the left. The tracker only calls it with \<open>old = 'USDT'\<close>; for an empty \<open>old\<close> this model
  returns \<open>s\<close> unchanged (Python would interleave \<open>new\<close>), a case the source never reaches.
\<close>

function replace :: "string \<Rightarrow> string \<Rightarrow> string \<Rightarrow> string" where
  "replace old new [] = []"
| "replace old new (c # cs) =
     (if old \<noteq> [] \<and> startswith (c # cs) old
      then new @ replace old new (drop (length old) (c # cs))
      else c # replace old new cs)"
  by pat_completeness auto
termination
  by (relation "measure (\<lambda>(old, new, s). length s)") auto

definition upper_char :: "char \<Rightarrow> char" where
  "upper_char c =
     (let n = (of_char c :: nat)
      in if 97 \<le> n \<and> n \<le> 122 then char_of (n - 32) else c)"

definition upper :: "string \<Rightarrow> string" where
  "upper s = map upper_char s"

text \<open>\<open>old in s\<close>: does \<open>old\<close> occur in \<open>s\<close> as a contiguous substring?\<close>

fun contains :: "string \<Rightarrow> string \<Rightarrow> bool" where
  "contains [] old = (old = [])"
| "contains (c # cs) old = (startswith (c # cs) old \<or> contains cs old)"

section \<open>Data model\<close>

text \<open>
  One object of the exchange's 24h ticker response. The five numeric fields arrive as
  strings; after \<^verbatim>\<open>pd.to_numeric\<close> the same columns hold floats, so the record is
  polymorphic in the type of these columns. \<^verbatim>\<open>get_market_data\<close> adds the key
  \<^verbatim>\<open>'name'\<close> to each dictionary: the record \<open>pair\<close> extends \<open>ticker\<close> by it.
\<close>

record 'a ticker =
  symbol :: string
  lastPrice :: 'a
  volume :: 'a
  quoteVolume :: 'a
  priceChangePercent :: 'a
  weightedAvgPrice :: 'a

record 'a pair = "'a ticker" +
  name :: string

text \<open>What \<^verbatim>\<open>requests.get\<close> does: it raises, or it returns a status code and a body.\<close>

datatype 'a response = Transport_error | Response nat 'a

type_synonym names = "string \<rightharpoonup> string"

section \<open>Fetching\<close>

text \<open>
  \<^verbatim>\<open>{c['symbol'].upper(): c['name'] for c in coins}\<close>: a later entry overwrites an
  earlier one with the same key, hence the \<open>rev\<close>.
\<close>

definition get_coin_names :: "(string \<times> string) list response \<Rightarrow> names" where
  "get_coin_names r =
     (case r of
        Transport_error \<Rightarrow> Map.empty
      | Response code coins \<Rightarrow>
          if code = 200 then map_of (rev (map (\<lambda>(s, n). (upper s, n)) coins))
          else Map.empty)"

definition add_name :: "names \<Rightarrow> string ticker \<Rightarrow> string pair" where
  "add_name names x =
     (let sym = upper (replace ''USDT'' '''' (symbol x))
      in \<lparr>symbol = symbol x, lastPrice = lastPrice x, volume = volume x,
          quoteVolume = quoteVolume x, priceChangePercent = priceChangePercent x,
          weightedAvgPrice = weightedAvgPrice x,
          name = (case names sym of Some n \<Rightarrow> n | None \<Rightarrow> sym)\<rparr>)"

definition get_market_data ::
  "string ticker list response \<Rightarrow> (string \<times> string) list response \<Rightarrow> string pair list option"
where
  "get_market_data r coins =
     (case r of
        Transport_error \<Rightarrow> None
      | Response code data \<Rightarrow>
          if code \<noteq> 200 then None
          else let usdt_pairs = filter (\<lambda>x. endswith (symbol x) ''USDT'') data;
                   names = get_coin_names coins
               in Some (map (add_name names) usdt_pairs))"

section \<open>Aggregation\<close>

subsection \<open>The library calls\<close>

text \<open>
  Floats are modelled as real numbers and \<open>None\<close> is NaN, the missing value: rounding,
  overflow and the infinities are outside the model. Two functions of the libraries are
  parameters of the model:
  \<^item> \<open>parse_float\<close> is what \<^verbatim>\<open>pd.to_numeric(..., errors='coerce')\<close> does to one cell:
    the number, or NaN when the cell does not parse;
  \<^item> \<open>argsort\<close> is numpy's \<^verbatim>\<open>argsort(kind='quicksort')\<close>, the default \<open>kind\<close> of
    \<^verbatim>\<open>sort_values\<close>, which the source does not override. It returns the positions of
    the values in ascending order of value. pandas documents this kind as not stable
    (only \<^verbatim>\<open>mergesort\<close> and \<^verbatim>\<open>stable\<close> are); the general theorems hold for
    every routine that meets the contract \<open>argsort_ok\<close>, and numpy's scalar routine is
    written out in its own section below.
\<close>

record lib =
  parse_float :: "string \<Rightarrow> real option"
  argsort :: "real list \<Rightarrow> nat list"

text \<open>The contract of \<open>argsort\<close>: a permutation of the positions that sorts the values.\<close>

definition argsort_ok :: "(real list \<Rightarrow> nat list) \<Rightarrow> bool" where
  "argsort_ok f \<longleftrightarrow>
     (\<forall>xs. mset (f xs) = mset [0..<length xs] \<and> sorted (map (\<lambda>i. xs ! i) (f xs)))"

datatype py_error = KeyError | IndexError | IOError

fun dropna :: "'a option list \<Rightarrow> 'a list" where
  "dropna [] = []"
| "dropna (None # xs) = dropna xs"
| "dropna (Some x # xs) = x # dropna xs"

definition isna :: "'a option \<Rightarrow> bool" where
  "isna x \<longleftrightarrow> x = None"

definition nan_mul :: "real option \<Rightarrow> real option \<Rightarrow> real option" where
  "nan_mul a b = (case (a, b) of (Some x, Some y) \<Rightarrow> Some (x * y) | _ \<Rightarrow> None)"

subsection \<open>\<^verbatim>\<open>process_data\<close>\<close>

definition to_numeric :: "lib \<Rightarrow> string pair \<Rightarrow> real option pair" where
  "to_numeric L r =
     \<lparr>symbol = symbol r,
      lastPrice = parse_float L (lastPrice r),
      volume = parse_float L (volume r),
      quoteVolume = parse_float L (quoteVolume r),
      priceChangePercent = parse_float L (priceChangePercent r),
      weightedAvgPrice = parse_float L (weightedAvgPrice r),
      name = name r\<rparr>"

text \<open>
  \<^verbatim>\<open>df.sort_values('quoteVolume', ascending=False)\<close>, with the defaults
  \<^verbatim>\<open>kind='quicksort'\<close> and \<^verbatim>\<open>na_position='last'\<close>. pandas sorts the rows that have a
  value: it reverses them, sorts the reversed values ascending with \<open>argsort\<close> and
  reverses the outcome; the rows without a value follow in their original order.
\<close>

definition sort_values :: "lib \<Rightarrow> real option pair list \<Rightarrow> real option pair list" where
  "sort_values L df =
     (let non_nans = rev (filter (\<lambda>r. \<not> isna (quoteVolume r)) df);
          nans = filter (\<lambda>r. isna (quoteVolume r)) df;
          indexer = rev (argsort L (map (\<lambda>r. the (quoteVolume r)) non_nans))
      in map (\<lambda>i. non_nans ! i) indexer @ nans)"

text \<open>The frame after \<^verbatim>\<open>.head(50)\<close>: the rows the table is made of, in table order.\<close>

definition top50 :: "lib \<Rightarrow> string pair list \<Rightarrow> real option pair list" where
  "top50 L raw_data = take 50 (sort_values L (map (to_numeric L) raw_data))"

record market_row =
  Name :: string
  Symbol :: string
  Price :: "real option"
  Market_Cap :: "real option"
  Volume_24h :: "real option"
  Change_24h :: "real option"
  Avg_Price :: "real option"

definition final :: "real option pair \<Rightarrow> market_row" where
  "final r =
     \<lparr>Name = name r,
      Symbol = replace ''USDT'' '''' (symbol r),
      Price = lastPrice r,
      Market_Cap = nan_mul (lastPrice r) (volume r),
      Volume_24h = volume r,
      Change_24h = priceChangePercent r,
      Avg_Price = weightedAvgPrice r\<rparr>"

text \<open>
  \<^verbatim>\<open>pd.DataFrame([])\<close> has no columns, so \<^verbatim>\<open>df['lastPrice']\<close> raises
  \<^verbatim>\<open>KeyError\<close> on the empty list.
\<close>

definition process_data :: "lib \<Rightarrow> string pair list \<Rightarrow> py_error + market_row list" where
  "process_data L raw_data =
     (if raw_data = [] then Inl KeyError
      else Inr (map final (top50 L raw_data)))"

subsection \<open>\<^verbatim>\<open>analyze_market\<close>\<close>

text \<open>The reductions of a column skip the missing values (\<^verbatim>\<open>skipna=True\<close>).\<close>

definition sum_skipna :: "real option list \<Rightarrow> real" where
  "sum_skipna col = sum_list (dropna col)"

definition mean_skipna :: "real option list \<Rightarrow> real option" where
  "mean_skipna col =
     (let v = dropna col
      in if v = [] then None else Some (sum_list v / real (length v)))"

definition median_skipna :: "real option list \<Rightarrow> real option" where
  "median_skipna col =
     (let v = sort (dropna col); n = length v
      in if n = 0 then None
         else if odd n then Some (v ! (n div 2))
         else Some ((v ! (n div 2 - 1) + v ! (n div 2)) / 2))"

definition max_skipna :: "real option list \<Rightarrow> real option" where
  "max_skipna col = (case dropna col of [] \<Rightarrow> None | x # xs \<Rightarrow> Some (fold max xs x))"

definition min_skipna :: "real option list \<Rightarrow> real option" where
  "min_skipna col = (case dropna col of [] \<Rightarrow> None | x # xs \<Rightarrow> Some (fold min xs x))"

text \<open>
  \<^verbatim>\<open>df.nlargest(n, col)\<close> and \<^verbatim>\<open>df.nsmallest(n, col)\<close> with \<^verbatim>\<open>keep='first'\<close>: the
  rows with a value, in descending (ascending) order of it, the first occurrence first
  among equals; the rows without a value fill up when fewer than \<open>n\<close> rows have one.
\<close>

definition nlargest :: "nat \<Rightarrow> (market_row \<Rightarrow> real option) \<Rightarrow> market_row list \<Rightarrow> market_row list" where
  "nlargest n col df =
     take n (sort_key (\<lambda>r. - the (col r)) (filter (\<lambda>r. \<not> isna (col r)) df)
             @ filter (\<lambda>r. isna (col r)) df)"

definition nsmallest :: "nat \<Rightarrow> (market_row \<Rightarrow> real option) \<Rightarrow> market_row list \<Rightarrow> market_row list" where
  "nsmallest n col df =
     take n (sort_key (\<lambda>r. the (col r)) (filter (\<lambda>r. \<not> isna (col r)) df)
             @ filter (\<lambda>r. isna (col r)) df)"

record market_stats =
  timestamp :: string
  total_market_cap :: real
  total_volume_24h :: real
  avg_price :: "real option"
  median_price :: "real option"
  positive_performers :: nat
  negative_performers :: nat
  top_5_by_market_cap :: "(string \<times> string \<times> real option \<times> real option) list"
  average_price :: "real option"
  highest_price :: "real option"
  lowest_price :: "real option"
  highest_24h_change :: "string \<times> string \<times> real option"
  lowest_24h_change :: "string \<times> string \<times> real option"
  average_24h_change :: "real option"

definition gt0 :: "real option \<Rightarrow> bool" where
  "gt0 x = (case x of None \<Rightarrow> False | Some v \<Rightarrow> 0 < v)"

definition lt0 :: "real option \<Rightarrow> bool" where
  "lt0 x = (case x of None \<Rightarrow> False | Some v \<Rightarrow> v < 0)"

text \<open>
  The first argument is the clock reading \<^verbatim>\<open>datetime.now().strftime(...)\<close>. The two
  \<^verbatim>\<open>to_dict('records')[0]\<close> raise \<^verbatim>\<open>IndexError\<close> on a table without rows; nothing
  before them in the dictionary raises.
\<close>

definition analyze_market :: "string \<Rightarrow> market_row list \<Rightarrow> py_error + market_stats" where
  "analyze_market now df =
     (case (nlargest 1 Change_24h df, nsmallest 1 Change_24h df) of
        (hi # _, lo # _) \<Rightarrow>
          Inr \<lparr>timestamp = now,
               total_market_cap = sum_skipna (map Market_Cap df),
               total_volume_24h = sum_skipna (map Volume_24h df),
               avg_price = mean_skipna (map Price df),
               median_price = median_skipna (map Price df),
               positive_performers = length (filter (\<lambda>r. gt0 (Change_24h r)) df),
               negative_performers = length (filter (\<lambda>r. lt0 (Change_24h r)) df),
               top_5_by_market_cap =
                 map (\<lambda>r. (Name r, Symbol r, Market_Cap r, Price r)) (nlargest 5 Market_Cap df),
               average_price = mean_skipna (map Price df),
               highest_price = max_skipna (map Price df),
               lowest_price = min_skipna (map Price df),
               highest_24h_change = (Name hi, Symbol hi, Change_24h hi),
               lowest_24h_change = (Name lo, Symbol lo, Change_24h lo),
               average_24h_change = mean_skipna (map Change_24h df)\<rparr>
      | _ \<Rightarrow> Inl IndexError)"

section \<open>The scheduler loop\<close>

text \<open>
  The state of a tracker object that \<^verbatim>\<open>run\<close> reads and writes. \<open>latest_data = None\<close>
  is the dictionary of \<^verbatim>\<open>__init__\<close>, whose three entries are \<^verbatim>\<open>None\<close>.
  \<^verbatim>\<open>CryptoTracker\<close> (main.py) has no \<^verbatim>\<open>latest_data\<close>: its loop leaves the field alone.
\<close>

record snapshot =
  data :: "market_row list"
  stats :: market_stats
  last_updated :: string

record tracker =
  update_interval :: nat
  last_report_hour :: "nat option"
  latest_data :: "snapshot option"
  running :: bool

text \<open>
  What the outside world does during one pass of the loop: the answers of the two
  services, the clock, and whether the two file writers raise.
\<close>

record world =
  ticker_api :: "string ticker list response"
  coin_api :: "(string \<times> string) list response"
  now_timestamp :: string
  now_hour :: nat
  excel_raises :: bool
  report_raises :: bool

text \<open>What an observer of one pass sees, in order.\<close>

datatype event =
    Fetch
  | Excel_written "market_row list" market_stats
  | Report_written "market_row list" market_stats
  | Caught py_error
  | Sleep nat

text \<open>
  The body of the \<^verbatim>\<open>try\<close> after the fetch, in \<^verbatim>\<open>CryptoWebTracker.run\<close> (app.py).
  An exception leaves the block at the statement that raises: the assignments before it
  have happened, those after it have not. The \<^verbatim>\<open>except\<close> clause only prints.
\<close>

definition web_try_body :: "lib \<Rightarrow> world \<Rightarrow> tracker \<Rightarrow> string pair list \<Rightarrow> tracker \<times> event list" where
  "web_try_body L w s d =
     (case process_data L d of
        Inl e \<Rightarrow> (s, [Caught e])
      | Inr df \<Rightarrow>
     (case analyze_market (now_timestamp w) df of
        Inl e \<Rightarrow> (s, [Caught e])
      | Inr st \<Rightarrow>
          if excel_raises w then (s, [Caught IOError])
          else
            let s1 = s\<lparr>latest_data :=
                        Some \<lparr>data = df, stats = st, last_updated = timestamp st\<rparr>\<rparr>;
                current_hour = now_hour w
            in if last_report_hour s1 \<noteq> Some current_hour
               then if report_raises w
                    then (s1, [Excel_written df st, Caught IOError])
                    else (s1\<lparr>last_report_hour := Some current_hour\<rparr>,
                          [Excel_written df st, Report_written df st])
               else (s1, [Excel_written df st])))"

text \<open>The same block in \<^verbatim>\<open>CryptoTracker.run\<close> (main.py): no snapshot.\<close>

definition try_body :: "lib \<Rightarrow> world \<Rightarrow> tracker \<Rightarrow> string pair list \<Rightarrow> tracker \<times> event list" where
  "try_body L w s d =
     (case process_data L d of
        Inl e \<Rightarrow> (s, [Caught e])
      | Inr df \<Rightarrow>
     (case analyze_market (now_timestamp w) df of
        Inl e \<Rightarrow> (s, [Caught e])
      | Inr st \<Rightarrow>
          if excel_raises w then (s, [Caught IOError])
          else
            let current_hour = now_hour w
            in if last_report_hour s \<noteq> Some current_hour
               then if report_raises w
                    then (s, [Excel_written df st, Caught IOError])
                    else (s\<lparr>last_report_hour := Some current_hour\<rparr>,
                          [Excel_written df st, Report_written df st])
               else (s, [Excel_written df st])))"

text \<open>
  One pass of the \<^verbatim>\<open>while\<close> body. \<^verbatim>\<open>if not data: continue\<close> is taken for \<^verbatim>\<open>None\<close>
  and for the empty list; \<^verbatim>\<open>continue\<close> goes back to the loop test, so the
  \<^verbatim>\<open>time.sleep\<close> that follows the \<^verbatim>\<open>try\<close> statement is not executed on that path.
  The first argument chooses the class: \<open>True\<close> for \<^verbatim>\<open>CryptoWebTracker\<close>.
\<close>

definition run_pass :: "bool \<Rightarrow> lib \<Rightarrow> world \<Rightarrow> tracker \<Rightarrow> tracker \<times> event list" where
  "run_pass web L w s =
     (case get_market_data (ticker_api w) (coin_api w) of
        None \<Rightarrow> (s, [Fetch])
      | Some d \<Rightarrow>
          if d = [] then (s, [Fetch])
          else let (s', evs) = (if web then web_try_body L w s d else try_body L w s d)
               in (s', Fetch # evs @ [Sleep (update_interval s)]))"

text \<open>
  \<^verbatim>\<open>run\<close>: the loop, over the worlds of the successive passes. The list is the part of
  the endless loop that is observed; the loop stops early when \<open>running\<close> is off.
\<close>

fun run :: "bool \<Rightarrow> lib \<Rightarrow> world list \<Rightarrow> tracker \<Rightarrow> tracker \<times> event list" where
  "run web L [] s = (s, [])"
| "run web L (w # ws) s =
     (if running s
      then let (s1, e1) = run_pass web L w s;
               (s2, e2) = run web L ws s1
           in (s2, e1 @ e2)
      else (s, []))"

text \<open>The document writes among the events.\<close>

fun is_report :: "event \<Rightarrow> bool" where
  "is_report (Report_written df st) = True"
| "is_report _ = False"

fun is_sleep :: "event \<Rightarrow> bool" where
  "is_sleep (Sleep n) = True"
| "is_sleep _ = False"

section \<open>numpy's quicksort on index arrays\<close>

text \<open>
  \<^verbatim>\<open>argsort(kind='quicksort')\<close> on a float column runs the scalar routine
  \<^verbatim>\<open>aquicksort\<close> of numpy's \<^verbatim>\<open>npysort/quicksort.cpp\<close> when no vectorised kernel is
  dispatched. It sorts an array \<open>t\<close> of positions by the values \<open>v\<close> they point to:
  ranges longer than 17 are partitioned around the median of the first, middle and last
  value, shorter ranges are sorted by insertion. The routine is written below as the C
  code has it, pointers being positions in \<open>t\<close>.

  \<^verbatim>\<open>INTP_SWAP(*a, *b)\<close>:
\<close>

definition swap_at :: "nat list \<Rightarrow> nat \<Rightarrow> nat \<Rightarrow> nat list" where
  "swap_at t i j = t[i := t ! j, j := t ! i]"

text \<open>
  \<^verbatim>\<open>do { ++pi; } while (v[*pi] < vp)\<close> is \<open>scan_up\<close> from \<open>pi + 1\<close>, and
  \<^verbatim>\<open>do { --pj; } while (vp < v[*pj])\<close> is \<open>scan_down\<close> from \<open>pj - 1\<close>. In C the pivot
  and the first element stop the two scans; the model also stops at the ends of \<open>t\<close>.
\<close>

function scan_up :: "real list \<Rightarrow> nat list \<Rightarrow> real \<Rightarrow> nat \<Rightarrow> nat" where
  "scan_up v t vp i =
     (if i < length t \<and> v ! (t ! i) < vp then scan_up v t vp (Suc i) else i)"
  by pat_completeness auto
termination
  by (relation "measure (\<lambda>(v, t, vp, i). length t - i)") auto

declare scan_up.simps [simp del]

function scan_down :: "real list \<Rightarrow> nat list \<Rightarrow> real \<Rightarrow> nat \<Rightarrow> nat" where
  "scan_down v t vp j =
     (if 0 < j \<and> vp < v ! (t ! j) then scan_down v t vp (j - 1) else j)"
  by pat_completeness auto
termination
  by (relation "measure (\<lambda>(v, t, vp, j). j)") auto

declare scan_down.simps [simp del]

text \<open>
  The partition loop:
  \<^verbatim>\<open>for (;;) { scan up; scan down; if (pi >= pj) break; INTP_SWAP(*pi, *pj); }\<close>.
  It returns the array and the final \<open>pi\<close>.
\<close>

function partition_loop :: "real list \<Rightarrow> real \<Rightarrow> nat list \<Rightarrow> nat \<Rightarrow> nat \<Rightarrow> nat list \<times> nat" where
  "partition_loop v vp t i j =
     (let i' = scan_up v t vp (Suc i);
          j' = scan_down v t vp (j - 1)
      in if j' \<le> i' then (t, i')
         else partition_loop v vp (swap_at t i' j') i' j')"
  by pat_completeness auto
termination
proof (relation "measure (\<lambda>(v, vp, t, i, j). j - i)")
  show "wf (measure (\<lambda>(v, vp, t, i, j). j - i))" by simp
next
  fix v :: "real list" and vp :: real and t :: "nat list" and i j x xa :: nat
  assume a: "x = scan_up v t vp (Suc i)" "xa = scan_down v t vp (j - 1)" "\<not> xa \<le> x"
  have up: "k \<le> scan_up v' t' vp' k" for v' t' vp' k
  proof (induction v' t' vp' k rule: scan_up.induct)
    case (1 v t vp i)
    show ?case
    proof (cases "i < length t \<and> v ! (t ! i) < vp")
      case True
      then have "scan_up v t vp i = scan_up v t vp (Suc i)"
        by (subst scan_up.simps) simp
      moreover have "Suc i \<le> scan_up v t vp (Suc i)"
        using "1.IH" True by blast
      ultimately show ?thesis by linarith
    next
      case False
      then have "scan_up v t vp i = i"
        by (subst scan_up.simps) auto
      then show ?thesis by simp
    qed
  qed
  have down: "scan_down v' t' vp' k \<le> k" for v' t' vp' k
  proof (induction v' t' vp' k rule: scan_down.induct)
    case (1 v t vp j)
    show ?case
    proof (cases "0 < j \<and> vp < v ! (t ! j)")
      case True
      then have "scan_down v t vp j = scan_down v t vp (j - 1)"
        by (subst scan_down.simps) simp
      moreover have "scan_down v t vp (j - 1) \<le> j - 1"
        using "1.IH" True by blast
      ultimately show ?thesis by linarith
    next
      case False
      then have "scan_down v t vp j = j"
        by (subst scan_down.simps) auto
      then show ?thesis by simp
    qed
  qed
  have "Suc i \<le> x" unfolding a(1) by (rule up)
  moreover have "xa \<le> j - 1" unfolding a(2) by (rule down)
  ultimately have "xa - x < j - i" using a(3) by linarith
  then show "((v, vp, swap_at t x xa, x, xa), (v, vp, t, i, j))
      \<in> measure (\<lambda>(v, vp, t, i, j). j - i)"
    by simp
qed

declare partition_loop.simps [simp del]

text \<open>
  One partition of the range \<open>pl..pr\<close>: the median of three is moved to \<open>pm\<close>, the pivot
  is parked at \<open>pr - 1\<close>, the loop runs from \<open>pl\<close> and \<open>pr - 1\<close>, and the pivot is swapped
  into its place \<open>pi\<close>, which is returned with the array.
\<close>

definition partition :: "real list \<Rightarrow> nat list \<Rightarrow> nat \<Rightarrow> nat \<Rightarrow> nat list \<times> nat" where
  "partition v t pl pr =
     (let pm = pl + (pr - pl) div 2;
          t = (if v ! (t ! pm) < v ! (t ! pl) then swap_at t pm pl else t);
          t = (if v ! (t ! pr) < v ! (t ! pm) then swap_at t pr pm else t);
          t = (if v ! (t ! pm) < v ! (t ! pl) then swap_at t pm pl else t);
          vp = v ! (t ! pm);
          t = swap_at t pm (pr - 1);
          (t, i) = partition_loop v vp t pl (pr - 1)
      in (swap_at t i (pr - 1), i))"

text \<open>
  The insertion sort of a range:
  \<^verbatim>\<open>for (pi = pl + 1; pi <= pr; ++pi) { vi = *pi; vp = v[vi]; pj = pi; pk = pi - 1;
  while (pj > pl && vp < v[*pk]) { *pj-- = *pk--; } *pj = vi; }\<close>.
\<close>

function ins_shift :: "real list \<Rightarrow> real \<Rightarrow> nat list \<Rightarrow> nat \<Rightarrow> nat \<Rightarrow> nat list \<times> nat" where
  "ins_shift v vp t pl j =
     (if pl < j \<and> vp < v ! (t ! (j - 1))
      then ins_shift v vp (t[j := t ! (j - 1)]) pl (j - 1)
      else (t, j))"
  by pat_completeness auto
termination
  by (relation "measure (\<lambda>(v, vp, t, pl, j). j)") auto

declare ins_shift.simps [simp del]

function insertion_sort :: "real list \<Rightarrow> nat list \<Rightarrow> nat \<Rightarrow> nat \<Rightarrow> nat \<Rightarrow> nat list" where
  "insertion_sort v t pl i pr =
     (if i \<le> pr
      then let vi = t ! i;
               (t', j) = ins_shift v (v ! vi) t pl i
           in insertion_sort v (t'[j := vi]) pl (Suc i) pr
      else t)"
  by pat_completeness auto
termination
  by (relation "measure (\<lambda>(v, t, pl, i, pr). Suc pr - i)") auto

declare insertion_sort.simps [simp del]

text \<open>\<^verbatim>\<open>npy_get_msb\<close>: the position of the highest bit, for the depth limit.\<close>

fun get_msb :: "nat \<Rightarrow> nat" where
  "get_msb n = (if n < 2 then 0 else Suc (get_msb (n div 2)))"

declare get_msb.simps [simp del]

text \<open>
  The main loop. The C code keeps a stack of ranges: after a partition it pushes the
  larger side with the decremented depth and goes on with the smaller side; a range taken
  from the stack (\<open>popped\<close>) whose depth is below zero is sorted by heapsort instead. The
  two sides are disjoint, so sorting one and then the other gives the array of the stack
  discipline. The heapsort is a parameter: no example below reaches it. The test
  \<open>pl \<le> i \<and> i \<le> pr\<close> always holds in C (the pivot position lies in the range); it makes
  the recursion well-founded.
\<close>

type_synonym heapsort = "real list \<Rightarrow> nat list \<Rightarrow> nat \<Rightarrow> nat \<Rightarrow> nat list"

function aquicksort :: "heapsort \<Rightarrow> real list \<Rightarrow> nat list \<Rightarrow> nat \<Rightarrow> nat \<Rightarrow> int \<Rightarrow> bool \<Rightarrow> nat list" where
  "aquicksort hs v t pl pr cdepth popped =
     (if popped \<and> cdepth < 0 then hs v t pl pr
      else if 16 < pr - pl
      then let (t', i) = partition v t pl pr
           in if pl \<le> i \<and> i \<le> pr
              then if i - pl < pr - i
                   then aquicksort hs v (aquicksort hs v t' pl (i - 1) (cdepth - 1) False)
                          (i + 1) pr (cdepth - 1) True
                   else aquicksort hs v (aquicksort hs v t' (i + 1) pr (cdepth - 1) False)
                          pl (i - 1) (cdepth - 1) True
              else t'
      else insertion_sort v t pl (Suc pl) pr)"
  by pat_completeness auto
termination
  by (relation "measure (\<lambda>(hs, v, t, pl, pr, cdepth, popped). Suc pr - pl)") auto

declare aquicksort.simps [simp del]

text \<open>\<^verbatim>\<open>npy_aquicksort(v, tosort, num)\<close> on the identity array, as \<^verbatim>\<open>argsort\<close> calls it.\<close>

definition npy_aquicksort :: "heapsort \<Rightarrow> real list \<Rightarrow> nat list" where
  "npy_aquicksort hs v =
     aquicksort hs v [0..<length v] 0 (length v - 1) (2 * int (get_msb (length v))) True"

text \<open>
  Lines 248 and 249 of \<^verbatim>\<open>run\<close>: \<^verbatim>\<open>process_data\<close> followed by \<^verbatim>\<open>analyze_market\<close>, the
  first exception ending the computation.
\<close>

definition aggregate :: "lib \<Rightarrow> string \<Rightarrow> string pair list \<Rightarrow> py_error + market_row list \<times> market_stats" where
  "aggregate L now raw_data =
     (case process_data L raw_data of
        Inl e \<Rightarrow> Inl e
      | Inr df \<Rightarrow> (case analyze_market now df of Inl e \<Rightarrow> Inl e | Inr st \<Rightarrow> Inr (df, st)))"

fun is_caught :: "event \<Rightarrow> bool" where
  "is_caught (Caught e) = True"
| "is_caught _ = False"

text \<open>
  A pass is a successful cycle when it got data (it did not leave through
  \<^verbatim>\<open>continue\<close>) and the \<^verbatim>\<open>except\<close> clause caught nothing.
\<close>

definition cycle_succeeds :: "bool \<Rightarrow> lib \<Rightarrow> world \<Rightarrow> tracker \<Rightarrow> bool" where
  "cycle_succeeds web L w s \<longleftrightarrow>
     (let evs = snd (run_pass web L w s)
      in evs \<noteq> [Fetch] \<and> filter is_caught evs = [])"

section \<open>The words of the specification\<close>

text \<open>
  The order the specification asks of the ranking: \<open>a\<close> may stand before \<open>b\<close> when its
  quoteVolume is at least that of \<open>b\<close>; a row without one may only stand before rows
  without one.
\<close>

definition ranks_before :: "real option \<Rightarrow> real option \<Rightarrow> bool" where
  "ranks_before a b =
     (case (a, b) of
        (Some x, Some y) \<Rightarrow> y \<le> x
      | (_, None) \<Rightarrow> True
      | (None, Some y) \<Rightarrow> False)"

text \<open>The symbol with the suffix removed, as \<^verbatim>\<open>str.removesuffix\<close> would do it.\<close>

definition removesuffix :: "string \<Rightarrow> string \<Rightarrow> string" where
  "removesuffix s suf = (if endswith s suf then take (length s - length suf) s else s)"

section \<open>Example inputs\<close>

text \<open>
  A sorting routine that meets \<open>argsort_ok\<close>: it keeps equal values in their original
  order, as the insertion sort of numpy's quicksort does on short arrays.
\<close>

definition stable_argsort :: "real list \<Rightarrow> nat list" where
  "stable_argsort xs = sort_key (\<lambda>i. xs ! i) [0..<length xs]"

text \<open>The parser on the decimal strings of the examples; every other string is unparseable.\<close>

definition demo_parse :: "string \<Rightarrow> real option" where
  "demo_parse = map_of
     [(''50000'', 50000), (''10'', 10), (''500000'', 500000), (''2.5'', 5 / 2),
      (''49000'', 49000), (''3000'', 3000), (''100'', 100), (''300000'', 300000),
      (''-1.0'', - 1), (''2950'', 2950)]"

definition demo_lib :: lib where
  "demo_lib = \<lparr>parse_float = demo_parse, argsort = stable_argsort\<rparr>"

text \<open>The libraries with numpy's quicksort as the sorting routine.\<close>

definition numpy_lib :: "heapsort \<Rightarrow> lib" where
  "numpy_lib hs = \<lparr>parse_float = demo_parse, argsort = npy_aquicksort hs\<rparr>"

text \<open>The two rows and the name map of section 8 of the specification.\<close>

definition btc :: "string ticker" where
  "btc = \<lparr>symbol = ''BTCUSDT'', lastPrice = ''50000'', volume = ''10'',
          quoteVolume = ''500000'', priceChangePercent = ''2.5'',
          weightedAvgPrice = ''49000''\<rparr>"

definition eth :: "string ticker" where
  "eth = \<lparr>symbol = ''ETHUSDT'', lastPrice = ''3000'', volume = ''100'',
          quoteVolume = ''300000'', priceChangePercent = ''-1.0'',
          weightedAvgPrice = ''2950''\<rparr>"

definition demo_names :: "(string \<times> string) list" where
  "demo_names = [(''btc'', ''Bitcoin''), (''eth'', ''Ethereum'')]"

definition demo_rows :: "string pair list" where
  "demo_rows = map (add_name (get_coin_names (Response 200 demo_names))) [eth, btc]"

text \<open>A row whose price does not parse, and a row whose quoteVolume does not.\<close>

definition bad_price :: "string pair" where
  "bad_price = \<lparr>symbol = ''XRPUSDT'', lastPrice = ''n/a'', volume = ''100'',
          quoteVolume = ''3000'', priceChangePercent = ''2.5'',
          weightedAvgPrice = ''10'', name = ''XRP''\<rparr>"

definition bad_quote :: "string pair" where
  "bad_quote = \<lparr>symbol = ''ADAUSDT'', lastPrice = ''10'', volume = ''100'',
          quoteVolume = '''', priceChangePercent = ''2.5'',
          weightedAvgPrice = ''10'', name = ''ADA''\<rparr>"

text \<open>Eighteen rows with the same quoteVolume, named by the letters A to R.\<close>

definition tied_row :: "char \<Rightarrow> string pair" where
  "tied_row c = \<lparr>symbol = c # ''USDT'', lastPrice = ''10'', volume = ''10'',
          quoteVolume = ''100'', priceChangePercent = ''2.5'',
          weightedAvgPrice = ''10'', name = [c]\<rparr>"

definition tied_rows :: "string pair list" where
  "tied_rows = map tied_row ''ABCDEFGHIJKLMNOPQR''"

text \<open>Fifty-one rows: the row of smaller quoteVolume first, then fifty equal rows.\<close>

definition crowd :: "string pair list" where
  "crowd = add_name Map.empty eth # replicate 50 (add_name Map.empty btc)"

text \<open>A symbol that ends with the suffix and contains it a second time.\<close>

definition twice :: "string ticker" where
  "twice = \<lparr>symbol = ''XUSDTYUSDT'', lastPrice = ''10'', volume = ''10'',
          quoteVolume = ''100'', priceChangePercent = ''2.5'',
          weightedAvgPrice = ''10''\<rparr>"

text \<open>Worlds of one pass, and a tracker as \<^verbatim>\<open>__init__\<close> leaves it.\<close>

definition ok_world :: "nat \<Rightarrow> world" where
  "ok_world h = \<lparr>ticker_api = Response 200 [eth, btc], coin_api = Response 200 demo_names,
     now_timestamp = ''2024-01-01 14:05'', now_hour = h,
     excel_raises = False, report_raises = False\<rparr>"

definition failed_world :: world where
  "failed_world = (ok_world 14)\<lparr>ticker_api := Response 503 []\<rparr>"

definition empty_world :: world where
  "empty_world = (ok_world 14)\<lparr>ticker_api := Response 200 []\<rparr>"

definition excel_fails_world :: world where
  "excel_fails_world = (ok_world 14)\<lparr>excel_raises := True\<rparr>"

definition report_fails_world :: world where
  "report_fails_world = (ok_world 14)\<lparr>report_raises := True\<rparr>"

definition tracker0 :: tracker where
  "tracker0 = \<lparr>update_interval = 300, last_report_hour = None, latest_data = None,
     running = True\<rparr>"

text \<open>The table the two example rows give.\<close>

definition demo_table :: "market_row list" where
  "demo_table =
     [\<lparr>Name = ''Bitcoin'', Symbol = ''BTC'', Price = Some 50000,
           Market_Cap = Some 500000, Volume_24h = Some 10,
           Change_24h = Some (5 / 2), Avg_Price = Some 49000\<rparr>,
          \<lparr>Name = ''Ethereum'', Symbol = ''ETH'', Price = Some 3000,
           Market_Cap = Some 300000, Volume_24h = Some 100,
           Change_24h = Some (- 1), Avg_Price = Some 2950\<rparr>]"

text \<open>The statistics of that table, and the snapshot made of both.\<close>

definition demo_stats :: market_stats where
  "demo_stats =
     \<lparr>timestamp = ''2024-01-01 14:05'', total_market_cap = 800000,
      total_volume_24h = 110, avg_price = Some 26500,
      median_price = Some 26500, positive_performers = 1,
      negative_performers = 1,
      top_5_by_market_cap =
        [(''Bitcoin'', ''BTC'', Some 500000, Some 50000),
         (''Ethereum'', ''ETH'', Some 300000, Some 3000)],
      average_price = Some 26500, highest_price = Some 50000,
      lowest_price = Some 3000,
      highest_24h_change = (''Bitcoin'', ''BTC'', Some (5 / 2)),
      lowest_24h_change = (''Ethereum'', ''ETH'', Some (- 1)),
      average_24h_change = Some (3 / 4)\<rparr>"

definition demo_snapshot :: snapshot where
  "demo_snapshot = \<lparr>data = demo_table, stats = demo_stats, last_updated = ''2024-01-01 14:05''\<rparr>"

section \<open>Properties of the model\<close>

lemma argsort_ok_stable: "argsort_ok stable_argsort"
  unfolding argsort_ok_def stable_argsort_def
  by (simp add: sorted_sort_key)

lemma argsort_length: "argsort_ok f \<Longrightarrow> length (f xs) = length xs"
  unfolding argsort_ok_def by (metis size_mset length_upt diff_zero)

lemma argsort_set: "argsort_ok f \<Longrightarrow> set (f xs) = {0..<length xs}"
  unfolding argsort_ok_def by (metis set_mset_mset set_upt)

lemma mset_map_nth_perm:
  assumes "mset idx = mset [0..<length xs]"
  shows "mset (map (\<lambda>i. xs ! i) idx) = mset xs"
proof -
  have "mset (map (\<lambda>i. xs ! i) idx) = image_mset (\<lambda>i. xs ! i) (mset idx)" by simp
  also have "\<dots> = image_mset (\<lambda>i. xs ! i) (mset [0..<length xs])" using assms by simp
  also have "\<dots> = mset (map (\<lambda>i. xs ! i) [0..<length xs])" by simp
  also have "\<dots> = mset xs" by (simp add: map_nth)
  finally show ?thesis .
qed

lemma mset_sort_values:
  assumes "argsort_ok (argsort L)"
  shows "mset (sort_values L df) = mset df"
proof -
  let ?ns = "rev (filter (\<lambda>r. \<not> isna (quoteVolume r)) df)"
  let ?idx = "argsort L (map (\<lambda>r. the (quoteVolume r)) ?ns)"
  have "mset ?idx = mset [0..<length ?ns]"
    using assms unfolding argsort_ok_def by (metis length_map)
  then have "mset (map (\<lambda>i. ?ns ! i) ?idx) = mset ?ns" by (rule mset_map_nth_perm)
  then have "mset (map (\<lambda>i. ?ns ! i) (rev ?idx)) = mset (filter (\<lambda>r. \<not> isna (quoteVolume r)) df)"
    by (simp add: rev_map[symmetric])
  then show ?thesis
    unfolding sort_values_def Let_def by (simp add: union_commute)
qed

lemma length_sort_values:
  "argsort_ok (argsort L) \<Longrightarrow> length (sort_values L df) = length df"
  by (metis mset_sort_values size_mset)

lemma ranks_before_simps [simp]:
  "ranks_before (Some x) (Some y) \<longleftrightarrow> y \<le> x"
  "ranks_before a None"
  "\<not> ranks_before None (Some y)"
  by (auto simp: ranks_before_def split: option.splits)

lemma sorted_sort_values:
  assumes ok: "argsort_ok (argsort L)"
  shows "sorted_wrt (\<lambda>a b. ranks_before (quoteVolume a) (quoteVolume b)) (sort_values L df)"
proof -
  let ?ns = "rev (filter (\<lambda>r. \<not> isna (quoteVolume r)) df)"
  let ?nans = "filter (\<lambda>r. isna (quoteVolume r)) df"
  let ?keys = "map (\<lambda>r. the (quoteVolume r)) ?ns"
  let ?idx = "argsort L ?keys"
  let ?A = "map (\<lambda>i. ?ns ! i) (rev ?idx)"
  have idx_set: "set ?idx = {0..<length ?ns}"
    using argsort_set[OF ok, of ?keys] by simp
  have A_valued: "\<exists>v. quoteVolume a = Some v" if "a \<in> set ?A" for a
  proof -
    from that obtain i where "i \<in> set ?idx" "a = ?ns ! i" by auto
    then have "a \<in> set ?ns" using idx_set by (metis atLeastLessThan_iff nth_mem)
    then show ?thesis by (auto simp: isna_def)
  qed
  have keys_A: "map (\<lambda>r. the (quoteVolume r)) ?A = rev (map (\<lambda>i. ?keys ! i) ?idx)"
    using idx_set by (auto simp: rev_map)
  have "sorted (map (\<lambda>i. ?keys ! i) ?idx)"
    using ok unfolding argsort_ok_def by blast
  then have "sorted_wrt (\<lambda>x y. y \<le> x) (map (\<lambda>r. the (quoteVolume r)) ?A)"
    unfolding keys_A by (simp add: sorted_wrt_rev)
  then have "sorted_wrt (\<lambda>a b. the (quoteVolume b) \<le> the (quoteVolume a)) ?A"
    by (simp add: sorted_wrt_map)
  then have sA: "sorted_wrt (\<lambda>a b. ranks_before (quoteVolume a) (quoteVolume b)) ?A"
  proof (rule sorted_wrt_mono_rel[rotated])
    fix x y
    assume "x \<in> set ?A" "y \<in> set ?A" "the (quoteVolume y) \<le> the (quoteVolume x)"
    moreover from this obtain u v where "quoteVolume x = Some u" "quoteVolume y = Some v"
      using A_valued by blast
    ultimately show "ranks_before (quoteVolume x) (quoteVolume y)" by simp
  qed
  have sN: "sorted_wrt (\<lambda>a b. ranks_before (quoteVolume a) (quoteVolume b)) ?nans"
    by (rule sorted_wrt_mono_rel[of _ "\<lambda>a b. True"]) (auto simp: isna_def)
  have cross: "\<forall>a\<in>set ?A. \<forall>b\<in>set ?nans. ranks_before (quoteVolume a) (quoteVolume b)"
    by (auto simp: isna_def)
  show ?thesis
    unfolding sort_values_def Let_def sorted_wrt_append
    using sA sN cross by blast
qed

lemma length_top50:
  "argsort_ok (argsort L) \<Longrightarrow> length (top50 L raw_data) = min 50 (length raw_data)"
  by (simp add: top50_def length_sort_values)

lemma sorted_top50:
  "argsort_ok (argsort L) \<Longrightarrow>
   sorted_wrt (\<lambda>a b. ranks_before (quoteVolume a) (quoteVolume b)) (top50 L raw_data)"
  unfolding top50_def by (rule sorted_wrt_take) (rule sorted_sort_values)

lemma sort_values_split:
  assumes ok: "argsort_ok (argsort L)"
  shows "\<exists>A. sort_values L df = A @ filter (\<lambda>r. isna (quoteVolume r)) df
           \<and> (\<forall>a\<in>set A. \<not> isna (quoteVolume a))
           \<and> length A = length (filter (\<lambda>r. \<not> isna (quoteVolume r)) df)"
proof -
  let ?ns = "rev (filter (\<lambda>r. \<not> isna (quoteVolume r)) df)"
  let ?keys = "map (\<lambda>r. the (quoteVolume r)) ?ns"
  let ?idx = "argsort L ?keys"
  let ?A = "map (\<lambda>i. ?ns ! i) (rev ?idx)"
  have idx_set: "set ?idx = {0..<length ?ns}"
    using argsort_set[OF ok, of ?keys] by simp
  have "\<not> isna (quoteVolume a)" if "a \<in> set ?A" for a
  proof -
    from that obtain i where "i \<in> set ?idx" "a = ?ns ! i" by auto
    then have "a \<in> set ?ns" using idx_set by (metis atLeastLessThan_iff nth_mem)
    then show ?thesis by simp
  qed
  moreover have "length ?A = length (filter (\<lambda>r. \<not> isna (quoteVolume r)) df)"
    using argsort_length[OF ok, of ?keys] by simp
  moreover have "sort_values L df = ?A @ filter (\<lambda>r. isna (quoteVolume r)) df"
    by (simp add: sort_values_def Let_def)
  ultimately show ?thesis by blast
qed

lemma nlargest_nonempty: "df \<noteq> [] \<Longrightarrow> 0 < n \<Longrightarrow> nlargest n col df \<noteq> []"
proof -
  assume a: "df \<noteq> []" "0 < n"
  have "length (sort_key (\<lambda>r. - the (col r)) (filter (\<lambda>r. \<not> isna (col r)) df)
             @ filter (\<lambda>r. isna (col r)) df) = length df"
    by (simp add: sum_length_filter_compl add.commute)
  then show ?thesis using a unfolding nlargest_def
    by (metis length_greater_0_conv take_eq_Nil not_gr_zero)
qed

lemma nsmallest_nonempty: "df \<noteq> [] \<Longrightarrow> 0 < n \<Longrightarrow> nsmallest n col df \<noteq> []"
proof -
  assume a: "df \<noteq> []" "0 < n"
  have "length (sort_key (\<lambda>r. the (col r)) (filter (\<lambda>r. \<not> isna (col r)) df)
             @ filter (\<lambda>r. isna (col r)) df) = length df"
    by (simp add: sum_length_filter_compl add.commute)
  then show ?thesis using a unfolding nsmallest_def
    by (metis length_greater_0_conv take_eq_Nil not_gr_zero)
qed

lemma analyze_market_Nil: "analyze_market now [] = Inl IndexError"
  by (simp add: analyze_market_def nlargest_def nsmallest_def)

lemma analyze_market_nonempty:
  assumes "df \<noteq> []"
  shows "\<exists>st. analyze_market now df = Inr st"
proof -
  obtain hi hs where "nlargest 1 Change_24h df = hi # hs"
    using nlargest_nonempty[OF assms, of 1 Change_24h] by (cases "nlargest 1 Change_24h df") auto
  moreover obtain lo ls where "nsmallest 1 Change_24h df = lo # ls"
    using nsmallest_nonempty[OF assms, of 1 Change_24h] by (cases "nsmallest 1 Change_24h df") auto
  ultimately show ?thesis by (simp add: analyze_market_def)
qed

lemma analyze_market_fields:
  assumes "analyze_market now df = Inr st"
  shows "total_market_cap st = sum_skipna (map Market_Cap df)"
    and "total_volume_24h st = sum_skipna (map Volume_24h df)"
    and "avg_price st = mean_skipna (map Price df)"
    and "median_price st = median_skipna (map Price df)"
    and "average_price st = mean_skipna (map Price df)"
    and "highest_price st = max_skipna (map Price df)"
    and "lowest_price st = min_skipna (map Price df)"
    and "average_24h_change st = mean_skipna (map Change_24h df)"
    and "timestamp st = now"
  using assms by (auto simp: analyze_market_def split: list.splits prod.splits)

lemma process_data_nonempty:
  "raw_data \<noteq> [] \<Longrightarrow> process_data L raw_data = Inr (map final (top50 L raw_data))"
  by (simp add: process_data_def)

lemma top50_nonempty:
  "argsort_ok (argsort L) \<Longrightarrow> raw_data \<noteq> [] \<Longrightarrow> top50 L raw_data \<noteq> []"
  using length_top50[of L raw_data] by (cases raw_data) auto

lemma aggregate_ok:
  assumes "argsort_ok (argsort L)" "raw_data \<noteq> []"
  shows "\<exists>st. aggregate L now raw_data = Inr (map final (top50 L raw_data), st)"
proof -
  have "map final (top50 L raw_data) \<noteq> []"
    using top50_nonempty[OF assms] by simp
  then obtain st where "analyze_market now (map final (top50 L raw_data)) = Inr st"
    using analyze_market_nonempty by blast
  then show ?thesis by (simp add: aggregate_def process_data_nonempty[OF assms(2)])
qed

lemma web_try_body_aggregate:
  "web_try_body L w s d =
     (case aggregate L (now_timestamp w) d of
        Inl e \<Rightarrow> (s, [Caught e])
      | Inr (df, st) \<Rightarrow>
          if excel_raises w then (s, [Caught IOError])
          else if last_report_hour s \<noteq> Some (now_hour w)
               then if report_raises w
                    then (s\<lparr>latest_data := Some \<lparr>data = df, stats = st, last_updated = timestamp st\<rparr>\<rparr>,
                          [Excel_written df st, Caught IOError])
                    else (s\<lparr>latest_data := Some \<lparr>data = df, stats = st, last_updated = timestamp st\<rparr>,
                            last_report_hour := Some (now_hour w)\<rparr>,
                          [Excel_written df st, Report_written df st])
               else (s\<lparr>latest_data := Some \<lparr>data = df, stats = st, last_updated = timestamp st\<rparr>\<rparr>,
                     [Excel_written df st]))"
  by (simp add: web_try_body_def aggregate_def Let_def split: sum.splits)

lemma try_body_aggregate:
  "try_body L w s d =
     (case aggregate L (now_timestamp w) d of
        Inl e \<Rightarrow> (s, [Caught e])
      | Inr (df, st) \<Rightarrow>
          if excel_raises w then (s, [Caught IOError])
          else if last_report_hour s \<noteq> Some (now_hour w)
               then if report_raises w
                    then (s, [Excel_written df st, Caught IOError])
                    else (s\<lparr>last_report_hour := Some (now_hour w)\<rparr>,
                          [Excel_written df st, Report_written df st])
               else (s, [Excel_written df st]))"
  by (simp add: try_body_def aggregate_def Let_def split: sum.splits)

lemma run_pass_no_data:
  "get_market_data (ticker_api w) (coin_api w) = None \<or>
   get_market_data (ticker_api w) (coin_api w) = Some [] \<Longrightarrow>
   run_pass web L w s = (s, [Fetch])"
  by (auto simp: run_pass_def)

lemma run_pass_data:
  "get_market_data (ticker_api w) (coin_api w) = Some d \<Longrightarrow> d \<noteq> [] \<Longrightarrow>
   run_pass web L w s =
     (fst (if web then web_try_body L w s d else try_body L w s d),
      Fetch # snd (if web then web_try_body L w s d else try_body L w s d)
        @ [Sleep (update_interval s)])"
  by (simp add: run_pass_def split: prod.splits)

lemma pass_reports:
  assumes "cycle_succeeds web L w s"
  shows "length (filter is_report (snd (run_pass web L w s))) =
           (if last_report_hour s = Some (now_hour w) then 0 else 1)
         \<and> last_report_hour (fst (run_pass web L w s)) = Some (now_hour w)"
proof (cases "get_market_data (ticker_api w) (coin_api w)")
  case None
  then show ?thesis using assms by (simp add: cycle_succeeds_def run_pass_no_data)
next
  case (Some d)
  show ?thesis
  proof (cases "d = []")
    case True
    then show ?thesis using assms Some by (simp add: cycle_succeeds_def run_pass_no_data)
  next
    case False
    show ?thesis
      using assms
      unfolding cycle_succeeds_def Let_def run_pass_data[OF Some False]
      by (cases web)
         (auto simp: web_try_body_aggregate try_body_aggregate split: sum.splits prod.splits if_splits)
  qed
qed

lemma dropna_filter:
  "dropna (map f (filter (\<lambda>r. \<not> isna (f r)) xs)) = dropna (map f xs)"
proof (induction xs)
  case Nil
  then show ?case by simp
next
  case (Cons x xs)
  then show ?case by (cases "f x") (simp_all add: isna_def)
qed

lemma final_fields:
  "Price (final x) = lastPrice x" "Volume_24h (final x) = volume x"
  "Change_24h (final x) = priceChangePercent x" "Avg_Price (final x) = weightedAvgPrice x"
  "Market_Cap (final x) = nan_mul (lastPrice x) (volume x)"
  "Name (final x) = name x" "Symbol (final x) = replace ''USDT'' '''' (symbol x)"
  by (simp_all add: final_def)

lemma process_data_Inr:
  "process_data L raw_data = Inr table \<Longrightarrow> table = map final (top50 L raw_data)"
  by (auto simp: process_data_def split: if_splits)

lemma skipna_filter:
  "sum_skipna (map f (filter (\<lambda>r. \<not> isna (f r)) xs)) = sum_skipna (map f xs)"
  "mean_skipna (map f (filter (\<lambda>r. \<not> isna (f r)) xs)) = mean_skipna (map f xs)"
  "median_skipna (map f (filter (\<lambda>r. \<not> isna (f r)) xs)) = median_skipna (map f xs)"
  "max_skipna (map f (filter (\<lambda>r. \<not> isna (f r)) xs)) = max_skipna (map f xs)"
  "min_skipna (map f (filter (\<lambda>r. \<not> isna (f r)) xs)) = min_skipna (map f xs)"
  by (simp_all only: sum_skipna_def mean_skipna_def median_skipna_def max_skipna_def
        min_skipna_def dropna_filter)

lemma to_numeric_fields:
  "lastPrice (to_numeric L r) = parse_float L (lastPrice r)"
  "volume (to_numeric L r) = parse_float L (volume r)"
  "quoteVolume (to_numeric L r) = parse_float L (quoteVolume r)"
  "priceChangePercent (to_numeric L r) = parse_float L (priceChangePercent r)"
  "weightedAvgPrice (to_numeric L r) = parse_float L (weightedAvgPrice r)"
  "symbol (to_numeric L r) = symbol r" "name (to_numeric L r) = name r"
  by (simp_all add: to_numeric_def)

lemma aggregate_Inr:
  "aggregate L now raw_data = Inr (table, st) \<Longrightarrow>
   process_data L raw_data = Inr table \<and> analyze_market now table = Inr st"
  by (auto simp: aggregate_def split: sum.splits)

lemma run_Cons:
  "running s \<Longrightarrow>
   run web L (w # ws) s =
     (fst (run web L ws (fst (run_pass web L w s))),
      snd (run_pass web L w s) @ snd (run web L ws (fst (run_pass web L w s))))"
  by (simp add: split_beta)

lemma run_pass_running: "running (fst (run_pass web L w s)) = running s"
proof (cases "get_market_data (ticker_api w) (coin_api w)")
  case None
  then show ?thesis by (simp add: run_pass_no_data)
next
  case (Some d)
  show ?thesis
  proof (cases "d = []")
    case True
    then show ?thesis using Some by (simp add: run_pass_no_data)
  next
    case False
    show ?thesis
      unfolding run_pass_data[OF Some False]
      by (cases web)
         (auto simp: web_try_body_aggregate try_body_aggregate split: sum.splits prod.splits)
  qed
qed

lemma demo_aggregate:
  "aggregate demo_lib ''2024-01-01 14:05'' demo_rows = Inr (demo_table, demo_stats)"
  by code_simp

lemma demo_fetch:
  "get_market_data (Response 200 [eth, btc]) (Response 200 demo_names) = Some demo_rows"
  by (simp add: get_market_data_def demo_rows_def endswith_def eth_def btc_def)

lemma demo_rows_nonempty: "demo_rows \<noteq> []"
  by (simp add: demo_rows_def)

lemma startswith_append_USDT:
  assumes "startswith (b @ ''USDT'') ''USDT''" and "b \<noteq> []"
  shows "startswith b ''USDT''"
proof -
  have "0 < length b" using assms(2) by simp
  then consider "length b = 1" | "length b = 2" | "length b = 3" | "4 \<le> length b"
    by linarith
  then show ?thesis
  proof cases
    case 1
    then obtain c1 where "b = [c1]" by (auto simp: length_Suc_conv)
    then show ?thesis using assms(1) by (simp add: startswith_def)
  next
    case 2
    then obtain c1 c2 where "b = [c1, c2]"
      by (auto simp: length_Suc_conv numeral_2_eq_2)
    then show ?thesis using assms(1) by (simp add: startswith_def)
  next
    case 3
    then obtain c1 c2 c3 where "b = [c1, c2, c3]"
      by (auto simp: length_Suc_conv numeral_3_eq_3)
    then show ?thesis using assms(1) by (simp add: startswith_def)
  next
    case 4
    then show ?thesis using assms(1) by (simp add: startswith_def)
  qed
qed

lemma replace_suffix_only:
  "\<not> contains b ''USDT'' \<Longrightarrow> replace ''USDT'' '''' (b @ ''USDT'') = b"
proof (induction b)
  case Nil
  then show ?case by (simp add: startswith_def)
next
  case (Cons c cs)
  have "\<not> startswith (c # cs) ''USDT''" using Cons.prems by simp
  then have "\<not> startswith ((c # cs) @ ''USDT'') ''USDT''"
    using startswith_append_USDT[of "c # cs"] by blast
  moreover have "\<not> contains cs ''USDT''" using Cons.prems by simp
  ultimately show ?case using Cons.IH by simp
qed

lemma endswith_split:
  "endswith s suf \<Longrightarrow> s = removesuffix s suf @ suf"
  by (simp add: endswith_def removesuffix_def) (metis append_take_drop_id)

lemma sorted_wrt_take_drop:
  assumes "sorted_wrt P xs"
  shows "\<forall>a\<in>set (take n xs). \<forall>b\<in>set (drop n xs). P a b"
proof -
  have "sorted_wrt P (take n xs @ drop n xs)" using assms by simp
  then show ?thesis unfolding sorted_wrt_append by blast
qed

lemma top50_dropped:
  assumes "argsort_ok (argsort L)"
  shows "mset (top50 L raw_data) + mset (drop 50 (sort_values L (map (to_numeric L) raw_data)))
           = mset (map (to_numeric L) raw_data)"
    and "\<forall>a\<in>set (top50 L raw_data).
           \<forall>b\<in>set (drop 50 (sort_values L (map (to_numeric L) raw_data))).
             ranks_before (quoteVolume a) (quoteVolume b)"
proof -
  let ?s = "sort_values L (map (to_numeric L) raw_data)"
  have "mset (take 50 ?s) + mset (drop 50 ?s) = mset ?s"
    by (metis append_take_drop_id mset_append)
  then show "mset (top50 L raw_data) + mset (drop 50 ?s) = mset (map (to_numeric L) raw_data)"
    by (simp add: top50_def mset_sort_values[OF assms])
  show "\<forall>a\<in>set (top50 L raw_data). \<forall>b\<in>set (drop 50 ?s).
          ranks_before (quoteVolume a) (quoteVolume b)"
    unfolding top50_def
    by (rule sorted_wrt_take_drop) (rule sorted_sort_values[OF assms])
qed

section \<open>The claims\<close>

subsection \<open>C1: length and order of the table\<close>

text \<open>
  C1 says that the table has \<open>min 50 n\<close> rows for \<open>n\<close> eligible rows, is ordered by
  quoteVolume descending with equal values in their original order, is never padded and
  never errors below 50 rows. The order of equal values fails: \<^verbatim>\<open>sort_values\<close> runs
  with its default \<^verbatim>\<open>kind='quicksort'\<close>, and numpy's quicksort partitions an array of
  more than 17 values, swapping equal values across the pivot. For eighteen eligible rows
  A to R with the same quoteVolume the table comes out in the order A, B, Q, P, ..., C, R,
  whatever the heapsort fallback is (it is not reached).
\<close>

theorem quicksort_reorders_ties:
  "map quoteVolume tied_rows = replicate 18 ''100''
   \<and> map (\<lambda>r. replace ''USDT'' '''' (symbol r)) tied_rows
       = map (\<lambda>c. [c]) ''ABCDEFGHIJKLMNOPQR''
   \<and> (\<forall>hs. (case process_data (numpy_lib hs) tied_rows of
               Inl e \<Rightarrow> []
             | Inr table \<Rightarrow> map Symbol table)
            = map (\<lambda>c. [c]) ''ABQPONMLKJIHGFEDCR'')"
proof (intro conjI allI)
  show "map quoteVolume tied_rows = replicate 18 ''100''"
    by code_simp
  show "map (\<lambda>r. replace ''USDT'' '''' (symbol r)) tied_rows
       = map (\<lambda>c. [c]) ''ABCDEFGHIJKLMNOPQR''"
    by code_simp
  fix hs
  show "(case process_data (numpy_lib hs) tied_rows of
               Inl e \<Rightarrow> []
             | Inr table \<Rightarrow> map Symbol table)
            = map (\<lambda>c. [c]) ''ABQPONMLKJIHGFEDCR''"
    by code_simp
qed

text \<open>
  C1 as amended: for every non-empty list of eligible rows, and whatever order the
  sorting routine gives to equal values, \<^verbatim>\<open>process_data\<close> returns a table (it does not
  raise) made of the first rows of the sorted frame; the table has \<open>min 50 n\<close> rows; in it
  a row never stands before a row of larger quoteVolume, nor a row without quoteVolume
  before a row with one; the rows of the table and the rows left out are together
  exactly the rows of the input (nothing is padded), and no row left out has a larger
  quoteVolume than a row of the table.
\<close>

theorem process_data_ranking:
  assumes "argsort_ok (argsort L)" and "raw_data \<noteq> []"
  shows "process_data L raw_data = Inr (map final (top50 L raw_data))
         \<and> length (map final (top50 L raw_data)) = min 50 (length raw_data)
         \<and> sorted_wrt (\<lambda>a b. ranks_before (quoteVolume a) (quoteVolume b)) (top50 L raw_data)
         \<and> (\<exists>dropped.
               mset (top50 L raw_data) + mset dropped = mset (map (to_numeric L) raw_data)
             \<and> (\<forall>a\<in>set (top50 L raw_data). \<forall>b\<in>set dropped.
                   ranks_before (quoteVolume a) (quoteVolume b)))"
proof (intro conjI)
  show "process_data L raw_data = Inr (map final (top50 L raw_data))"
    by (rule process_data_nonempty[OF assms(2)])
  show "length (map final (top50 L raw_data)) = min 50 (length raw_data)"
    by (simp add: length_top50[OF assms(1)])
  show "sorted_wrt (\<lambda>a b. ranks_before (quoteVolume a) (quoteVolume b)) (top50 L raw_data)"
    by (rule sorted_top50[OF assms(1)])
  show "\<exists>dropped.
               mset (top50 L raw_data) + mset dropped = mset (map (to_numeric L) raw_data)
             \<and> (\<forall>a\<in>set (top50 L raw_data). \<forall>b\<in>set dropped.
                   ranks_before (quoteVolume a) (quoteVolume b))"
    using top50_dropped[OF assms(1), of raw_data] by blast
qed

theorem process_data_ranking_witness:
  "argsort_ok (argsort demo_lib) \<and> crowd \<noteq> [] \<and> length crowd = 51
   \<and> process_data demo_lib crowd = Inr (map final (top50 demo_lib crowd))
   \<and> length (map final (top50 demo_lib crowd)) = 50
   \<and> top50 demo_lib crowd = replicate 50 (to_numeric demo_lib (add_name Map.empty btc))
   \<and> ranks_before (quoteVolume (to_numeric demo_lib (add_name Map.empty btc)))
        (quoteVolume (to_numeric demo_lib (add_name Map.empty eth)))
   \<and> process_data demo_lib demo_rows = Inr demo_table"
proof -
  have ok: "argsort_ok (argsort demo_lib)"
    by (simp add: demo_lib_def argsort_ok_stable)
  have ne: "crowd \<noteq> []" and len: "length crowd = 51"
    by (simp_all add: crowd_def)
  have kept: "top50 demo_lib crowd = replicate 50 (to_numeric demo_lib (add_name Map.empty btc))"
    by code_simp
  have rank: "ranks_before (quoteVolume (to_numeric demo_lib (add_name Map.empty btc)))
        (quoteVolume (to_numeric demo_lib (add_name Map.empty eth)))"
    by code_simp
  have small: "process_data demo_lib demo_rows = Inr demo_table"
    by code_simp
  show ?thesis
    using process_data_ranking[OF ok ne] ok ne len kept rank small by simp
qed

subsection \<open>C10: rows without quoteVolume rank last\<close>

text \<open>
  C10: in the ranking of \<^verbatim>\<open>process_data\<close> every row whose quoteVolume did not parse
  stands after all the rows whose quoteVolume parsed, so that such a row is in the table
  only when fewer than 50 rows have a parsed quoteVolume.
\<close>

theorem missing_quoteVolume_ranked_last:
  assumes "argsort_ok (argsort L)"
  shows "(\<exists>A. sort_values L (map (to_numeric L) raw_data)
                 = A @ filter (\<lambda>r. isna (quoteVolume r)) (map (to_numeric L) raw_data)
              \<and> (\<forall>a\<in>set A. \<not> isna (quoteVolume a)))
         \<and> (\<forall>r\<in>set (top50 L raw_data). isna (quoteVolume r) \<longrightarrow>
               length (filter (\<lambda>x. \<not> isna (quoteVolume x)) (map (to_numeric L) raw_data)) < 50)"
proof -
  let ?df = "map (to_numeric L) raw_data"
  obtain A where A: "sort_values L ?df = A @ filter (\<lambda>r. isna (quoteVolume r)) ?df"
      "\<forall>a\<in>set A. \<not> isna (quoteVolume a)"
      "length A = length (filter (\<lambda>r. \<not> isna (quoteVolume r)) ?df)"
    using sort_values_split[OF assms, of ?df] by blast
  have "length A < 50" if "r \<in> set (top50 L raw_data)" "isna (quoteVolume r)" for r
  proof (rule ccontr)
    assume "\<not> length A < 50"
    then have "take 50 (sort_values L ?df) = take 50 A" by (simp add: A(1))
    then have "r \<in> set A" using that(1) by (auto simp: top50_def dest: in_set_takeD)
    then show False using A(2) that(2) by blast
  qed
  then show ?thesis using A by auto
qed

theorem missing_quoteVolume_ranked_last_witness:
  "argsort_ok (argsort demo_lib)
   \<and> to_numeric demo_lib bad_quote \<in> set (top50 demo_lib (bad_quote # demo_rows))
   \<and> isna (quoteVolume (to_numeric demo_lib bad_quote))
   \<and> length (filter (\<lambda>x. \<not> isna (quoteVolume x))
        (map (to_numeric demo_lib) (bad_quote # demo_rows))) < 50
   \<and> map symbol (top50 demo_lib (bad_quote # demo_rows)) = [''BTCUSDT'', ''ETHUSDT'', ''ADAUSDT'']"
proof -
  have ok: "argsort_ok (argsort demo_lib)"
    by (simp add: demo_lib_def argsort_ok_stable)
  have order: "top50 demo_lib (bad_quote # demo_rows)
      = map (to_numeric demo_lib) (rev demo_rows @ [bad_quote])"
    by code_simp
  have mem: "to_numeric demo_lib bad_quote \<in> set (top50 demo_lib (bad_quote # demo_rows))"
    unfolding order by simp
  have na: "isna (quoteVolume (to_numeric demo_lib bad_quote))"
    by code_simp
  have syms: "map symbol (top50 demo_lib (bad_quote # demo_rows)) = [''BTCUSDT'', ''ETHUSDT'', ''ADAUSDT'']"
    by code_simp
  from missing_quoteVolume_ranked_last[OF ok, of "bad_quote # demo_rows"] mem na
  have "length (filter (\<lambda>x. \<not> isna (quoteVolume x))
        (map (to_numeric demo_lib) (bad_quote # demo_rows))) < 50"
    by blast
  with ok mem na syms show ?thesis by blast
qed

subsection \<open>C2: Market Cap and its total\<close>

text \<open>
  C2: in every cycle each row's Market Cap in the table equals that row's Price times its
  Volume, and \<open>total_market_cap\<close> of the statistics computed from that table equals the sum
  of the Market Cap column, missing values skipped on both sides. A product with a missing
  factor is missing (\<open>nan_mul\<close>).
\<close>

theorem market_cap_consistent:
  assumes "process_data L raw_data = Inr table"
    and "analyze_market now table = Inr st"
  shows "(\<forall>r\<in>set table. Market_Cap r = nan_mul (Price r) (Volume_24h r))
         \<and> total_market_cap st = sum_skipna (map Market_Cap table)
         \<and> total_market_cap st
             = sum_list (dropna (map (\<lambda>r. nan_mul (Price r) (Volume_24h r)) table))"
proof -
  have t: "table = map final (top50 L raw_data)"
    using assms(1) by (rule process_data_Inr)
  have rows: "\<forall>r\<in>set table. Market_Cap r = nan_mul (Price r) (Volume_24h r)"
    unfolding t by (auto simp: final_fields)
  then have eq: "map Market_Cap table = map (\<lambda>r. nan_mul (Price r) (Volume_24h r)) table"
    by simp
  have total: "total_market_cap st = sum_skipna (map Market_Cap table)"
    using assms(2) by (rule analyze_market_fields)
  have "sum_skipna (map Market_Cap table)
          = sum_list (dropna (map (\<lambda>r. nan_mul (Price r) (Volume_24h r)) table))"
    unfolding sum_skipna_def by (simp only: eq)
  with rows total show ?thesis by simp
qed

theorem market_cap_consistent_witness:
  "process_data demo_lib demo_rows = Inr demo_table
   \<and> analyze_market ''2024-01-01 14:05'' demo_table
       = Inr (projr (analyze_market ''2024-01-01 14:05'' demo_table))
   \<and> Market_Cap (hd demo_table) = Some 500000
   \<and> total_market_cap (projr (analyze_market ''2024-01-01 14:05'' demo_table)) = 800000"
proof -
  let ?st = "projr (analyze_market ''2024-01-01 14:05'' demo_table)"
  have p: "process_data demo_lib demo_rows = Inr demo_table"
    by code_simp
  have "\<not> isl (analyze_market ''2024-01-01 14:05'' demo_table)"
    by code_simp
  then have a: "analyze_market ''2024-01-01 14:05'' demo_table = Inr ?st"
    by simp
  have "total_market_cap ?st = sum_skipna (map Market_Cap demo_table)"
    using market_cap_consistent[OF p a] by blast
  also have "\<dots> = 800000"
    by (simp add: sum_skipna_def demo_table_def)
  finally have "total_market_cap ?st = 800000" .
  moreover have "Market_Cap (hd demo_table) = Some 500000"
    by (simp add: demo_table_def)
  ultimately show ?thesis using p a by blast
qed

subsection \<open>C3: fields that do not parse\<close>

text \<open>
  C3: a row in which some of the five numeric fields do not parse receives a missing value
  for exactly those fields (each column is the parser's answer, cell by cell); the row is
  not dropped by the ranking and stands in the table, if it is among the first 50, with
  these fields as they are; the reductions of a column (mean, median, maximum, minimum,
  sums) are those of the rows that have a value in it; and the aggregation of a non-empty
  input does not raise.
\<close>

theorem unparseable_field_is_skipped:
  assumes "argsort_ok (argsort L)" and "raw_data \<noteq> []"
  shows "(\<forall>r\<in>set raw_data.
            lastPrice (to_numeric L r) = parse_float L (lastPrice r)
          \<and> volume (to_numeric L r) = parse_float L (volume r)
          \<and> quoteVolume (to_numeric L r) = parse_float L (quoteVolume r)
          \<and> priceChangePercent (to_numeric L r) = parse_float L (priceChangePercent r)
          \<and> weightedAvgPrice (to_numeric L r) = parse_float L (weightedAvgPrice r))
       \<and> mset (sort_values L (map (to_numeric L) raw_data)) = mset (map (to_numeric L) raw_data)
       \<and> (\<forall>x\<in>set (top50 L raw_data).
            Price (final x) = lastPrice x \<and> Volume_24h (final x) = volume x
          \<and> Change_24h (final x) = priceChangePercent x
          \<and> Avg_Price (final x) = weightedAvgPrice x)
       \<and> (\<exists>table st.
            aggregate L now raw_data = Inr (table, st)
          \<and> table = map final (top50 L raw_data)
          \<and> avg_price st = mean_skipna (map Price (filter (\<lambda>r. \<not> isna (Price r)) table))
          \<and> median_price st = median_skipna (map Price (filter (\<lambda>r. \<not> isna (Price r)) table))
          \<and> highest_price st = max_skipna (map Price (filter (\<lambda>r. \<not> isna (Price r)) table))
          \<and> lowest_price st = min_skipna (map Price (filter (\<lambda>r. \<not> isna (Price r)) table))
          \<and> average_24h_change st
              = mean_skipna (map Change_24h (filter (\<lambda>r. \<not> isna (Change_24h r)) table))
          \<and> total_volume_24h st
              = sum_skipna (map Volume_24h (filter (\<lambda>r. \<not> isna (Volume_24h r)) table))
          \<and> total_market_cap st
              = sum_skipna (map Market_Cap (filter (\<lambda>r. \<not> isna (Market_Cap r)) table)))"
proof (intro conjI)
  show "\<forall>r\<in>set raw_data.
            lastPrice (to_numeric L r) = parse_float L (lastPrice r)
          \<and> volume (to_numeric L r) = parse_float L (volume r)
          \<and> quoteVolume (to_numeric L r) = parse_float L (quoteVolume r)
          \<and> priceChangePercent (to_numeric L r) = parse_float L (priceChangePercent r)
          \<and> weightedAvgPrice (to_numeric L r) = parse_float L (weightedAvgPrice r)"
    by (simp add: to_numeric_fields)
  show "mset (sort_values L (map (to_numeric L) raw_data)) = mset (map (to_numeric L) raw_data)"
    by (rule mset_sort_values[OF assms(1)])
  show "\<forall>x\<in>set (top50 L raw_data).
            Price (final x) = lastPrice x \<and> Volume_24h (final x) = volume x
          \<and> Change_24h (final x) = priceChangePercent x
          \<and> Avg_Price (final x) = weightedAvgPrice x"
    by (simp add: final_fields)
  obtain st where agg: "aggregate L now raw_data = Inr (map final (top50 L raw_data), st)"
    using aggregate_ok[OF assms] by blast
  then have st: "analyze_market now (map final (top50 L raw_data)) = Inr st"
    by (simp add: aggregate_Inr)
  show "\<exists>table st.
            aggregate L now raw_data = Inr (table, st)
          \<and> table = map final (top50 L raw_data)
          \<and> avg_price st = mean_skipna (map Price (filter (\<lambda>r. \<not> isna (Price r)) table))
          \<and> median_price st = median_skipna (map Price (filter (\<lambda>r. \<not> isna (Price r)) table))
          \<and> highest_price st = max_skipna (map Price (filter (\<lambda>r. \<not> isna (Price r)) table))
          \<and> lowest_price st = min_skipna (map Price (filter (\<lambda>r. \<not> isna (Price r)) table))
          \<and> average_24h_change st
              = mean_skipna (map Change_24h (filter (\<lambda>r. \<not> isna (Change_24h r)) table))
          \<and> total_volume_24h st
              = sum_skipna (map Volume_24h (filter (\<lambda>r. \<not> isna (Volume_24h r)) table))
          \<and> total_market_cap st
              = sum_skipna (map Market_Cap (filter (\<lambda>r. \<not> isna (Market_Cap r)) table))"
    using agg analyze_market_fields[OF st]
    by (intro exI[of _ "map final (top50 L raw_data)"] exI[of _ st])
       (simp only: skipna_filter simp_thms)
qed

theorem unparseable_field_is_skipped_witness:
  "argsort_ok (argsort demo_lib) \<and> bad_price # demo_rows \<noteq> []
   \<and> parse_float demo_lib (lastPrice bad_price) = None
   \<and> lastPrice (to_numeric demo_lib bad_price) = None
   \<and> \<not> isl (aggregate demo_lib ''2024-01-01 14:05'' (bad_price # demo_rows))
   \<and> map Price (fst (projr (aggregate demo_lib ''2024-01-01 14:05'' (bad_price # demo_rows))))
       = [Some 50000, Some 3000, None]
   \<and> avg_price (snd (projr (aggregate demo_lib ''2024-01-01 14:05'' (bad_price # demo_rows))))
       = Some 26500
   \<and> median_price (snd (projr (aggregate demo_lib ''2024-01-01 14:05'' (bad_price # demo_rows))))
       = Some 26500"
proof -
  let ?rows = "bad_price # demo_rows"
  let ?agg = "aggregate demo_lib ''2024-01-01 14:05'' ?rows"
  have ok: "argsort_ok (argsort demo_lib)"
    by (simp add: demo_lib_def argsort_ok_stable)
  have ne: "?rows \<noteq> []" by simp
  have unparsed: "parse_float demo_lib (lastPrice bad_price) = None"
    by (simp add: demo_lib_def demo_parse_def bad_price_def)
  note inst = unparseable_field_is_skipped[OF ok ne, of "''2024-01-01 14:05''"]
  from inst have "lastPrice (to_numeric demo_lib bad_price) = parse_float demo_lib (lastPrice bad_price)"
    by simp
  then have missing: "lastPrice (to_numeric demo_lib bad_price) = None"
    using unparsed by simp
  from inst obtain table st where agg: "?agg = Inr (table, st)"
    by blast
  then have no_raise: "\<not> isl ?agg" by simp
  have prices: "map Price (fst (projr ?agg)) = [Some 50000, Some 3000, None]"
    by code_simp
  have mean: "avg_price (snd (projr ?agg)) = Some 26500"
    by code_simp
  have median: "median_price (snd (projr ?agg)) = Some 26500"
    by code_simp
  show ?thesis
    using ok ne unparsed missing no_raise prices mean median by blast
qed

subsection \<open>C4: the empty input\<close>

text \<open>
  C4 says that for the empty row sequence the aggregation returns an empty table and
  defined statistics and does not raise. It raises: \<^verbatim>\<open>process_data\<close> fails with
  \<^verbatim>\<open>KeyError\<close> on the frame without columns, and \<^verbatim>\<open>analyze_market\<close> on a table
  without rows fails with \<^verbatim>\<open>IndexError\<close>.
\<close>

theorem aggregation_of_nothing_raises:
  "process_data demo_lib [] = Inl KeyError
   \<and> analyze_market ''2024-01-01 14:05'' [] = Inl IndexError
   \<and> aggregate demo_lib ''2024-01-01 14:05'' [] = Inl KeyError"
  by (simp add: process_data_def analyze_market_Nil aggregate_def)

text \<open>
  C4 as amended: for the empty row sequence \<^verbatim>\<open>process_data\<close> raises \<^verbatim>\<open>KeyError\<close> and
  \<^verbatim>\<open>analyze_market\<close> on an empty table raises \<^verbatim>\<open>IndexError\<close>, whatever the libraries
  and the clock; the loop does not aggregate an empty fetch result: the guard
  \<^verbatim>\<open>if not data\<close> ends the pass with the tracker unchanged and nothing published.
\<close>

theorem empty_input:
  "process_data L [] = Inl KeyError
   \<and> analyze_market now [] = Inl IndexError
   \<and> aggregate L now [] = Inl KeyError
   \<and> (get_market_data (ticker_api w) (coin_api w) = Some [] \<longrightarrow>
        run_pass web L w s = (s, [Fetch]))"
  by (simp add: process_data_def analyze_market_Nil aggregate_def run_pass_no_data)

theorem empty_input_witness:
  "get_market_data (ticker_api empty_world) (coin_api empty_world) = Some []
   \<and> run_pass True demo_lib empty_world tracker0 = (tracker0, [Fetch])
   \<and> run_pass False demo_lib empty_world tracker0 = (tracker0, [Fetch])"
proof -
  have g: "get_market_data (ticker_api empty_world) (coin_api empty_world) = Some []"
    by (simp add: empty_world_def ok_world_def get_market_data_def)
  show ?thesis
    using g empty_input[of demo_lib "''2024-01-01 14:05''" empty_world True tracker0]
      empty_input[of demo_lib "''2024-01-01 14:05''" empty_world False tracker0]
    by simp
qed

subsection \<open>C5: the sleep after a failed fetch\<close>

text \<open>
  C5 says that a pass whose fetch returns nothing skips aggregation and publishing and
  still sleeps one interval before the next fetch. The pass does skip them, but
  \<^verbatim>\<open>continue\<close> also skips the \<^verbatim>\<open>time.sleep\<close> below the \<^verbatim>\<open>try\<close> statement: with a
  service that answers 503, two passes fetch twice with no sleep between, in both
  classes. A pass that gets data sleeps once.
\<close>

theorem failed_fetch_skips_sleep:
  "get_market_data (ticker_api failed_world) (coin_api failed_world) = None
   \<and> run True demo_lib [failed_world, failed_world] tracker0 = (tracker0, [Fetch, Fetch])
   \<and> run False demo_lib [failed_world, failed_world] tracker0 = (tracker0, [Fetch, Fetch])
   \<and> filter is_sleep (snd (run True demo_lib [failed_world, failed_world] tracker0)) = []
   \<and> filter is_sleep (snd (run True demo_lib [ok_world 14] tracker0)) = [Sleep 300]"
proof -
  have g: "get_market_data (ticker_api failed_world) (coin_api failed_world) = None"
    by (simp add: failed_world_def ok_world_def get_market_data_def)
  have p: "run_pass web demo_lib failed_world tracker0 = (tracker0, [Fetch])" for web
    using g by (simp add: run_pass_no_data)
  have running0: "running tracker0"
    by (simp add: tracker0_def)
  have r: "run web demo_lib [failed_world, failed_world] tracker0 = (tracker0, [Fetch, Fetch])" for web
    using p by (simp add: running0)
  have ok: "filter is_sleep (snd (run True demo_lib [ok_world 14] tracker0)) = [Sleep 300]"
    by code_simp
  show ?thesis using g r ok by simp
qed

subsection \<open>C6: a write that fails\<close>

text \<open>
  C6 says that a failing spreadsheet or document write does not prevent the update of
  \<^verbatim>\<open>latest_data\<close> in that cycle, nor the next cycle. \<^verbatim>\<open>update_excel\<close> is called
  before the assignment to \<^verbatim>\<open>latest_data\<close>: when it raises, the snapshot is not updated.
\<close>

theorem excel_failure_blocks_snapshot:
  "excel_raises excel_fails_world
   \<and> \<not> isl (aggregate demo_lib (now_timestamp excel_fails_world) demo_rows)
   \<and> run_pass True demo_lib excel_fails_world tracker0
       = (tracker0, [Fetch, Caught IOError, Sleep 300])
   \<and> latest_data (fst (run_pass True demo_lib excel_fails_world tracker0)) = None"
proof -
  have "run_pass True demo_lib excel_fails_world tracker0
       = (tracker0, [Fetch, Caught IOError, Sleep 300])"
    by code_simp
  moreover have "excel_raises excel_fails_world"
    by (simp add: excel_fails_world_def)
  moreover have "\<not> isl (aggregate demo_lib (now_timestamp excel_fails_world) demo_rows)"
    by code_simp
  moreover have "latest_data tracker0 = None"
    by (simp add: tracker0_def)
  ultimately show ?thesis by simp
qed

text \<open>
  C6 as amended, for a cycle that fetched rows and aggregated them into \<open>df\<close> and \<open>st\<close>:
  when the spreadsheet write raises, the exception is caught and the tracker, its
  \<^verbatim>\<open>latest_data\<close> included, is left as it was; when the document write raises,
  \<^verbatim>\<open>latest_data\<close> has been replaced by this cycle's table and statistics; in both
  cases the pass ends with one sleep, \<open>running\<close> is untouched and the loop goes on
  with the next pass.
\<close>

theorem write_failure_and_snapshot:
  assumes "get_market_data (ticker_api w) (coin_api w) = Some d" and "d \<noteq> []"
    and "aggregate L (now_timestamp w) d = Inr (df, st)"
  shows "(excel_raises w \<longrightarrow>
            run_pass True L w s = (s, [Fetch, Caught IOError, Sleep (update_interval s)]))
       \<and> (\<not> excel_raises w \<and> report_raises w \<and> last_report_hour s \<noteq> Some (now_hour w) \<longrightarrow>
            run_pass True L w s
              = (s\<lparr>latest_data := Some \<lparr>data = df, stats = st, last_updated = timestamp st\<rparr>\<rparr>,
                 [Fetch, Excel_written df st, Caught IOError, Sleep (update_interval s)]))
       \<and> running (fst (run_pass True L w s)) = running s
       \<and> (running s \<longrightarrow>
            run True L (w # ws) s
              = (fst (run True L ws (fst (run_pass True L w s))),
                 snd (run_pass True L w s) @ snd (run True L ws (fst (run_pass True L w s)))))"
proof (intro conjI impI)
  assume "excel_raises w"
  then show "run_pass True L w s = (s, [Fetch, Caught IOError, Sleep (update_interval s)])"
    by (simp add: run_pass_data[OF assms(1,2)] web_try_body_aggregate assms(3))
next
  assume "\<not> excel_raises w \<and> report_raises w \<and> last_report_hour s \<noteq> Some (now_hour w)"
  then show "run_pass True L w s
              = (s\<lparr>latest_data := Some \<lparr>data = df, stats = st, last_updated = timestamp st\<rparr>\<rparr>,
                 [Fetch, Excel_written df st, Caught IOError, Sleep (update_interval s)])"
    by (simp add: run_pass_data[OF assms(1,2)] web_try_body_aggregate assms(3))
next
  show "running (fst (run_pass True L w s)) = running s"
    by (rule run_pass_running)
next
  assume "running s"
  then show "run True L (w # ws) s
              = (fst (run True L ws (fst (run_pass True L w s))),
                 snd (run_pass True L w s) @ snd (run True L ws (fst (run_pass True L w s))))"
    by (rule run_Cons)
qed

theorem write_failure_and_snapshot_witness:
  "excel_raises excel_fails_world
   \<and> latest_data (fst (run_pass True demo_lib excel_fails_world tracker0)) = latest_data tracker0
   \<and> \<not> excel_raises report_fails_world \<and> report_raises report_fails_world
   \<and> last_report_hour tracker0 \<noteq> Some (now_hour report_fails_world)
   \<and> latest_data (fst (run_pass True demo_lib report_fails_world tracker0)) = Some demo_snapshot
   \<and> running tracker0
   \<and> snd (run True demo_lib [excel_fails_world, ok_world 14] tracker0)
       = [Fetch, Caught IOError, Sleep 300,
          Fetch, Excel_written demo_table demo_stats, Report_written demo_table demo_stats,
          Sleep 300]"
proof -
  have ts: "now_timestamp excel_fails_world = ''2024-01-01 14:05''"
      "now_timestamp report_fails_world = ''2024-01-01 14:05''"
    by (simp_all add: excel_fails_world_def report_fails_world_def ok_world_def)
  have f1: "get_market_data (ticker_api excel_fails_world) (coin_api excel_fails_world) = Some demo_rows"
    by (simp add: excel_fails_world_def ok_world_def demo_fetch)
  have f2: "get_market_data (ticker_api report_fails_world) (coin_api report_fails_world) = Some demo_rows"
    by (simp add: report_fails_world_def ok_world_def demo_fetch)
  have a1: "aggregate demo_lib (now_timestamp excel_fails_world) demo_rows = Inr (demo_table, demo_stats)"
    by (simp add: ts demo_aggregate)
  have a2: "aggregate demo_lib (now_timestamp report_fails_world) demo_rows = Inr (demo_table, demo_stats)"
    by (simp add: ts demo_aggregate)
  have e: "excel_raises excel_fails_world"
    by (simp add: excel_fails_world_def)
  have r: "\<not> excel_raises report_fails_world" "report_raises report_fails_world"
      "last_report_hour tracker0 \<noteq> Some (now_hour report_fails_world)"
    by (simp_all add: report_fails_world_def ok_world_def tracker0_def)
  have run0: "running tracker0" by (simp add: tracker0_def)
  note excel = write_failure_and_snapshot[OF f1 demo_rows_nonempty a1, of tracker0 "[ok_world 14]"]
  note report = write_failure_and_snapshot[OF f2 demo_rows_nonempty a2, of tracker0 "[]"]
  have s1: "latest_data (fst (run_pass True demo_lib excel_fails_world tracker0)) = latest_data tracker0"
    using excel e by simp
  have s2: "latest_data (fst (run_pass True demo_lib report_fails_world tracker0)) = Some demo_snapshot"
    using report r by (simp add: demo_snapshot_def demo_stats_def)
  have next_cycle: "snd (run True demo_lib [excel_fails_world, ok_world 14] tracker0)
       = [Fetch, Caught IOError, Sleep 300,
          Fetch, Excel_written demo_table demo_stats, Report_written demo_table demo_stats,
          Sleep 300]"
    by code_simp
  show ?thesis using e s1 r s2 run0 next_cycle by blast
qed

subsection \<open>C7: an exception and the previous snapshot\<close>




subsection \<open>C8: the base symbol and the display name\<close>

text \<open>
  C8 says that the base symbol of an eligible row is its symbol with the suffix
  \<^verbatim>\<open>USDT\<close> removed. The code calls \<^verbatim>\<open>replace('USDT', '')\<close>, which removes every
  occurrence: a symbol that contains \<^verbatim>\<open>USDT\<close> before its suffix loses that one too.
\<close>

theorem replace_removes_every_occurrence:
  "endswith (symbol twice) ''USDT''
   \<and> removesuffix (symbol twice) ''USDT'' = ''XUSDTY''
   \<and> Symbol (final (to_numeric demo_lib (add_name Map.empty twice))) = ''XY''
   \<and> name (add_name Map.empty twice) = ''XY''"
  by code_simp

text \<open>
  C8 as amended: for every eligible row the Symbol of the table row is the symbol with
  every occurrence of \<^verbatim>\<open>USDT\<close> removed, which is the symbol without its suffix when
  \<^verbatim>\<open>USDT\<close> occurs nowhere else in it; the display name is looked up under that base
  symbol in upper case, and is that upper-case base symbol when the name map has no entry.
\<close>

theorem base_symbol:
  assumes "endswith (symbol x) ''USDT''"
  shows "Symbol (final (to_numeric L (add_name names x))) = replace ''USDT'' '''' (symbol x)
       \<and> name (add_name names x)
           = (case names (upper (replace ''USDT'' '''' (symbol x))) of
                Some n \<Rightarrow> n
              | None \<Rightarrow> upper (replace ''USDT'' '''' (symbol x)))
       \<and> (\<not> contains (removesuffix (symbol x) ''USDT'') ''USDT'' \<longrightarrow>
            replace ''USDT'' '''' (symbol x) = removesuffix (symbol x) ''USDT'')"
proof (intro conjI impI)
  show "Symbol (final (to_numeric L (add_name names x))) = replace ''USDT'' '''' (symbol x)"
    by (simp add: final_def to_numeric_def add_name_def Let_def)
  show "name (add_name names x)
           = (case names (upper (replace ''USDT'' '''' (symbol x))) of
                Some n \<Rightarrow> n
              | None \<Rightarrow> upper (replace ''USDT'' '''' (symbol x)))"
    by (simp add: add_name_def Let_def)
next
  assume "\<not> contains (removesuffix (symbol x) ''USDT'') ''USDT''"
  then have "replace ''USDT'' '''' (removesuffix (symbol x) ''USDT'' @ ''USDT'')
               = removesuffix (symbol x) ''USDT''"
    by (rule replace_suffix_only)
  then show "replace ''USDT'' '''' (symbol x) = removesuffix (symbol x) ''USDT''"
    using endswith_split[OF assms] by simp
qed

theorem base_symbol_witness:
  "endswith (symbol btc) ''USDT''
   \<and> \<not> contains (removesuffix (symbol btc) ''USDT'') ''USDT''
   \<and> removesuffix (symbol btc) ''USDT'' = ''BTC''
   \<and> Symbol (final (to_numeric demo_lib (add_name Map.empty btc))) = ''BTC''
   \<and> name (add_name (get_coin_names (Response 200 demo_names)) btc) = ''Bitcoin''
   \<and> name (add_name Map.empty btc) = ''BTC''"
proof -
  have e: "endswith (symbol btc) ''USDT''"
    by (simp add: btc_def endswith_def)
  have rs: "removesuffix (symbol btc) ''USDT'' = ''BTC''"
    by (simp add: removesuffix_def endswith_def btc_def)
  have nc: "\<not> contains (removesuffix (symbol btc) ''USDT'') ''USDT''"
    unfolding rs by (simp add: startswith_def)
  have up: "upper ''BTC'' = ''BTC''" "upper ''btc'' = ''BTC''" "upper ''eth'' = ''ETH''"
    by code_simp+
  have r: "replace ''USDT'' '''' (symbol btc) = ''BTC''"
    using base_symbol[OF e, of demo_lib Map.empty] nc rs by simp
  have s: "Symbol (final (to_numeric demo_lib (add_name Map.empty btc))) = ''BTC''"
    using base_symbol[OF e, of demo_lib Map.empty] r by simp
  have n0: "name (add_name Map.empty btc) = ''BTC''"
    using base_symbol[OF e, of demo_lib Map.empty] r up by simp
  have n1: "name (add_name (get_coin_names (Response 200 demo_names)) btc) = ''Bitcoin''"
    using base_symbol[OF e, of demo_lib "get_coin_names (Response 200 demo_names)"] r up
    by (simp add: get_coin_names_def demo_names_def)
  show ?thesis using e nc rs s n0 n1 by blast
qed

subsection \<open>C9: one document per hour\<close>

text \<open>
  C9 says that every pair of consecutive successful cycles within one wall-clock hour
  performs exactly one document write, on the first of the two. The second and third
  successful cycles of an hour are such a pair and write no document: the marker already
  holds the hour when the second one starts.
\<close>

theorem third_cycle_of_the_hour:
  "cycle_succeeds True demo_lib (ok_world 14) tracker0
   \<and> cycle_succeeds True demo_lib (ok_world 14) (fst (run_pass True demo_lib (ok_world 14) tracker0))
   \<and> cycle_succeeds True demo_lib (ok_world 14)
        (fst (run True demo_lib [ok_world 14, ok_world 14] tracker0))
   \<and> filter is_report (snd (run True demo_lib [ok_world 14, ok_world 14]
        (fst (run_pass True demo_lib (ok_world 14) tracker0)))) = []
   \<and> filter is_report (snd (run False demo_lib [ok_world 14, ok_world 14]
        (fst (run_pass False demo_lib (ok_world 14) tracker0)))) = []"
  by code_simp

text \<open>
  C9 as amended: of two consecutive successful cycles with the same wall-clock hour, the
  first writes exactly one document when the marker differed from that hour before it
  and none otherwise, and the second writes none; a successful cycle whose hour differs
  from the marker writes exactly one document, and after every successful cycle the
  marker is the hour of that cycle. This holds for both classes.
\<close>

theorem hourly_report:
  assumes "cycle_succeeds web L w1 s"
    and "cycle_succeeds web L w2 (fst (run_pass web L w1 s))"
    and "now_hour w2 = now_hour w1"
  shows "length (filter is_report (snd (run_pass web L w1 s)))
           = (if last_report_hour s = Some (now_hour w1) then 0 else 1)
       \<and> last_report_hour (fst (run_pass web L w1 s)) = Some (now_hour w1)
       \<and> filter is_report (snd (run_pass web L w2 (fst (run_pass web L w1 s)))) = []
       \<and> last_report_hour (fst (run_pass web L w2 (fst (run_pass web L w1 s)))) = Some (now_hour w1)"
proof -
  note first = pass_reports[OF assms(1)]
  note second = pass_reports[OF assms(2)]
  from first have marker: "last_report_hour (fst (run_pass web L w1 s)) = Some (now_hour w2)"
    by (simp add: assms(3))
  from second marker
  have "length (filter is_report (snd (run_pass web L w2 (fst (run_pass web L w1 s))))) = 0"
    by simp
  then have "filter is_report (snd (run_pass web L w2 (fst (run_pass web L w1 s)))) = []"
    by simp
  with first second show ?thesis by (simp add: assms(3))
qed

theorem hourly_report_witness:
  "cycle_succeeds True demo_lib (ok_world 14) tracker0
   \<and> cycle_succeeds True demo_lib (ok_world 14) (fst (run_pass True demo_lib (ok_world 14) tracker0))
   \<and> last_report_hour tracker0 \<noteq> Some (now_hour (ok_world 14))
   \<and> length (filter is_report (snd (run_pass True demo_lib (ok_world 14) tracker0))) = 1
   \<and> filter is_report (snd (run_pass True demo_lib (ok_world 14)
        (fst (run_pass True demo_lib (ok_world 14) tracker0)))) = []
   \<and> last_report_hour (fst (run_pass True demo_lib (ok_world 14) tracker0)) = Some 14"
proof -
  have c1: "cycle_succeeds True demo_lib (ok_world 14) tracker0"
    by code_simp
  have c2: "cycle_succeeds True demo_lib (ok_world 14)
      (fst (run_pass True demo_lib (ok_world 14) tracker0))"
    by code_simp
  have m: "last_report_hour tracker0 \<noteq> Some (now_hour (ok_world 14))"
    by (simp add: tracker0_def)
  have h: "now_hour (ok_world 14) = 14"
    by (simp add: ok_world_def)
  show ?thesis
    using hourly_report[OF c1 c2 refl] c1 c2 m by (simp add: h)
qed

end
